theory Spec2Isabelle
  imports Main "HOL-Library.Finite_Map" "HOL-Library.Word"
begin

section \<open>Data model\<close>

text \<open>
  The yaml pipeline of \<^verbatim>\<open>pkg/yaml\<close> and \<^verbatim>\<open>pkg/helm\<close> works on Go values of type
  \<^verbatim>\<open>interface{}\<close> as \<^verbatim>\<open>gopkg.in/yaml.v3\<close> decodes them. The code tells apart only
  the nil interface, a \<^verbatim>\<open>map[string]interface{}\<close>, the string \<^verbatim>\<open>""\<close> and everything
  else, so the dynamic types are a tagged union (a \<^verbatim>\<open>float64\<close> is given by its
  IEEE 754 bits). A Go map has no order and no duplicate
  keys: it is a finite map. A value of map type held in an interface is a non-nil map, as
  every map that the decoder or a map literal builds is.
\<close>

datatype iface =
    VNull
  | VBool bool
  | VInt int
  | VFloat "64 word"
  | VString string
  | VSeq "iface list"
  | VMap "(string, iface) fmap"

type_synonym gomap = "(string, iface) fmap"

text \<open>
  A variable of type \<^verbatim>\<open>map[string]interface{}\<close> is either the nil map (\<open>None\<close>) or a
  reference to a map. Reading a key of the nil map, or a key that is absent, gives the zero
  value, the nil interface; the two-valued read \<^verbatim>\<open>_, ok := m[k]\<close> reports presence.
\<close>

type_synonym manifest = "gomap option"

definition index :: "manifest \<Rightarrow> string \<Rightarrow> iface" where
  "index m k = (case m of None \<Rightarrow> VNull
                | Some g \<Rightarrow> (case fmlookup g k of None \<Rightarrow> VNull | Some v \<Rightarrow> v))"

definition has_key :: "manifest \<Rightarrow> string \<Rightarrow> bool" where
  "has_key m k = (case m of None \<Rightarrow> False | Some g \<Rightarrow> fmlookup g k \<noteq> None)"

text \<open>
  Errors are values. Each constructor is one \<^verbatim>\<open>fmt.Errorf\<close> of the source, carrying
  what its format string prints; \<open>External\<close> is an error handed up by a collaborator
  (the yaml library, the repository lookup, the helm process); \<open>PanicNilMap\<close> is the runtime
  panic "assignment to entry in nil map".
\<close>

datatype error =
    DecodingYaml string
  | UnableToReflect iface
  | ReflectingMetadata gomap
  | ExistingNamespace gomap
  | UnmarshallingYaml string error
  | MetadataNotMap gomap
  | MarshallingYaml gomap error
  | SearchingRepositories string error
  | RunningHelm "string list" error string
  | StderrOutput "string list" string
  | External string
  | PanicNilMap

section \<open>Document decoder (pkg/yaml)\<close>

text \<open>
  The grammar of \<^verbatim>\<open>gopkg.in/yaml.v3\<close> is not part of the repository; it is a parameter.
  \<^verbatim>\<open>yaml.NewDecoder(bytes.NewReader(doc))\<close> is modelled by what its successive
  \<^verbatim>\<open>Decode\<close> calls deliver before \<^verbatim>\<open>io.EOF\<close>: one entry per document of the
  stream, either the decoded value or a failure. The reader is over a finite byte slice, so
  the entries are a list and its end is \<^verbatim>\<open>io.EOF\<close>.
\<close>

datatype document = Decoded iface | Invalid

type_synonym decoder = "string \<Rightarrow> document list"

text \<open>The \<^verbatim>\<open>for\<close> loop of \<^verbatim>\<open>Decode\<close>, with \<^verbatim>\<open>values\<close> as the accumulator.\<close>

fun Decode_loop :: "string \<Rightarrow> document list \<Rightarrow> iface list \<Rightarrow> error + iface list" where
  "Decode_loop doc [] values = Inr values"
| "Decode_loop doc (Invalid # rest) values = Inl (DecodingYaml doc)"
| "Decode_loop doc (Decoded v # rest) values = Decode_loop doc rest (values @ [v])"

definition Decode :: "decoder \<Rightarrow> string \<Rightarrow> error + iface list" where
  "Decode NewDecoder doc = Decode_loop doc (NewDecoder doc) []"

text \<open>
  The loop of \<^verbatim>\<open>DecodeMaps\<close>: a nil value stays the nil map, a
  \<^verbatim>\<open>map[string]interface{}\<close> is kept, any other value ends the call.
\<close>

fun DecodeMaps_loop :: "iface list \<Rightarrow> manifest list \<Rightarrow> error + manifest list" where
  "DecodeMaps_loop [] maps = Inr maps"
| "DecodeMaps_loop (VNull # rest) maps = DecodeMaps_loop rest (maps @ [None])"
| "DecodeMaps_loop (VMap g # rest) maps = DecodeMaps_loop rest (maps @ [Some g])"
| "DecodeMaps_loop (v # rest) maps = Inl (UnableToReflect v)"

definition DecodeMaps :: "decoder \<Rightarrow> string \<Rightarrow> error + manifest list" where
  "DecodeMaps NewDecoder doc =
     (case Decode NewDecoder doc of
        Inl err \<Rightarrow> Inl err
      | Inr values \<Rightarrow> DecodeMaps_loop values [])"

text \<open>What the claims call a Null document, a Mapping document and the projection of one.\<close>

fun is_mapping :: "iface \<Rightarrow> bool" where
  "is_mapping (VMap g) = True"
| "is_mapping v = False"

fun as_manifest :: "iface \<Rightarrow> manifest" where
  "as_manifest (VMap g) = Some g"
| "as_manifest v = None"

text \<open>
  A few inputs with the documents \<^verbatim>\<open>yaml.v3\<close> reads from them, to run the theorems on;
  any other input is left as one invalid document.
\<close>

definition sample_decoder :: decoder where
  "sample_decoder doc =
     (if doc = [] then []
      else if doc = ''---'' then [Decoded VNull]
      else if doc = ''foo: bar\<newline>---\<newline>baz: zoo\<newline>---\<newline>- a\<newline>- b'' then
        [Decoded (VMap (fmupd ''foo'' (VString ''bar'') fmempty)),
         Decoded (VMap (fmupd ''baz'' (VString ''zoo'') fmempty)),
         Decoded (VSeq [VString ''a'', VString ''b''])]
      else if doc = ''---\<newline>---\<newline>foo: bar'' then
        [Decoded VNull, Decoded (VMap (fmupd ''foo'' (VString ''bar'') fmempty))]
      else if doc = ''foo: bar\<newline>---\<newline>foo: [bar'' then
        [Decoded (VMap (fmupd ''foo'' (VString ''bar'') fmempty)), Invalid]
      else if doc = ''foo: bar'' then
        [Decoded (VMap (fmupd ''foo'' (VString ''bar'') fmempty))]
      else if doc = ''foo: bar\<newline>metadata: null'' then
        [Decoded (VMap (fmupd ''metadata'' VNull (fmupd ''foo'' (VString ''bar'') fmempty)))]
      else if doc = ''foo: bar\<newline>metadata:\<newline>    namespace: ns\<newline>'' then
        [Decoded (VMap (fmupd ''metadata'' (VMap (fmupd ''namespace'' (VString ''ns'') fmempty))
                         (fmupd ''foo'' (VString ''bar'') fmempty)))]
      else if doc = ''a: -0.0'' then
        [Decoded (VMap (fmupd ''a'' (VFloat 0x8000000000000000) fmempty))]
      else if doc = ''a: -0\<newline>metadata:\<newline>    namespace: ns\<newline>'' then
        [Decoded (VMap (fmupd ''metadata'' (VMap (fmupd ''namespace'' (VString ''ns'') fmempty))
                         (fmupd ''a'' (VInt 0) fmempty)))]
      else [Invalid])"

section \<open>Namespace injection (pkg/helm/template.go)\<close>

text \<open>
  \<^verbatim>\<open>injectNamespace\<close> writes into the map it is given. The model returns the contents
  of that map after the call, paired with the result of the call (\<open>Inl\<close> the error, in
  which case the Go result is nil; \<open>Inr\<close> the returned map, which is the argument itself).
\<close>

definition injectNamespace :: "manifest \<Rightarrow> string \<Rightarrow> manifest \<times> (error + manifest)" where
  "injectNamespace manifest namespace =
     (case manifest of
        None \<Rightarrow> (None, Inr None)
      | Some g \<Rightarrow>
          (let g1 = (if \<not> has_key (Some g) ''metadata''
                     then fmupd ''metadata'' (VMap fmempty) g else g)
           in case index (Some g1) ''metadata'' of
                VMap metadata \<Rightarrow>
                  if index (Some metadata) ''namespace'' \<noteq> VNull
                  then (Some g1, Inl (ExistingNamespace g1))
                  else (let g2 = fmupd ''metadata''
                                   (VMap (fmupd ''namespace'' (VString namespace) metadata)) g1
                        in (Some g2, Inr (Some g2)))
              | _ \<Rightarrow> (Some g1, Inl (ReflectingMetadata g1))))"

text \<open>
  One round of the loop of \<^verbatim>\<open>injectNamespaceBack\<close>, up to the call of
  \<^verbatim>\<open>yaml.Marshal\<close>. On the nil map the read \<^verbatim>\<open>manifest["metadata"]\<close> gives nil and
  the assignment that follows panics. In the branch of a map-typed metadata \<^verbatim>\<open>ok\<close> is
  true, so the condition \<^verbatim>\<open>ok && ns == nil || ns == ""\<close> is the disjunction below.
\<close>

definition injectNamespaceBack_step :: "manifest \<Rightarrow> string \<Rightarrow> error + gomap" where
  "injectNamespaceBack_step manifest namespace =
     (case manifest of
        None \<Rightarrow> Inl PanicNilMap
      | Some g \<Rightarrow>
          if index (Some g) ''metadata'' = VNull
          then Inr (fmupd ''metadata'' (VMap (fmupd ''namespace'' (VString namespace) fmempty)) g)
          else (case index (Some g) ''metadata'' of
                  VMap metadata \<Rightarrow>
                    if index (Some metadata) ''namespace'' = VNull \<or>
                       index (Some metadata) ''namespace'' = VString []
                    then Inr (fmupd ''metadata''
                                (VMap (fmupd ''namespace'' (VString namespace) metadata)) g)
                    else Inr g
                | _ \<Rightarrow> Inl (MetadataNotMap g)))"

text \<open>\<^verbatim>\<open>strings.Join\<close>.\<close>

fun Join :: "string list \<Rightarrow> string \<Rightarrow> string" where
  "Join [] sep = []"
| "Join [x] sep = x"
| "Join (x # y # ys) sep = x @ sep @ Join (y # ys) sep"

text \<open>
  \<^verbatim>\<open>yaml.Marshal\<close> is the second parameter taken from the library. The loop appends
  the text of each manifest; the function joins the texts.
\<close>

type_synonym marshaller = "gomap \<Rightarrow> error + string"

fun injectNamespaceBack_loop ::
  "marshaller \<Rightarrow> string \<Rightarrow> manifest list \<Rightarrow> string list \<Rightarrow> error + string list" where
  "injectNamespaceBack_loop Marshal namespace [] withInjectedNS = Inr withInjectedNS"
| "injectNamespaceBack_loop Marshal namespace (manifest # rest) withInjectedNS =
     (case injectNamespaceBack_step manifest namespace of
        Inl err \<Rightarrow> Inl err
      | Inr g \<Rightarrow>
          (case Marshal g of
             Inl err \<Rightarrow> Inl (MarshallingYaml g err)
           | Inr marshalBytes \<Rightarrow>
               injectNamespaceBack_loop Marshal namespace rest (withInjectedNS @ [marshalBytes])))"

definition injectNamespaceBack ::
  "decoder \<Rightarrow> marshaller \<Rightarrow> string \<Rightarrow> string \<Rightarrow> error + string" where
  "injectNamespaceBack NewDecoder Marshal unifiedManifest namespace =
     (case DecodeMaps NewDecoder unifiedManifest of
        Inl err \<Rightarrow> Inl (UnmarshallingYaml unifiedManifest err)
      | Inr manifests \<Rightarrow>
          (case injectNamespaceBack_loop Marshal namespace manifests [] of
             Inl err \<Rightarrow> Inl err
           | Inr withInjectedNS \<Rightarrow> Inr (Join withInjectedNS ''\<newline>---\<newline>'')))"

text \<open>
  The batch rule in the words of the specification, to compare the loop with: the namespace
  of a manifest is \<^verbatim>\<open>metadata.namespace\<close>, missing when there is no metadata mapping or
  no such key; a manifest whose namespace is missing, null or the empty string receives the
  supplied one, any other manifest is left as it is. A manifest of the data model has a
  metadata that is absent, null or a mapping.
\<close>

definition metadata_of :: "gomap \<Rightarrow> gomap" where
  "metadata_of g = (case index (Some g) ''metadata'' of VMap metadata \<Rightarrow> metadata | _ \<Rightarrow> fmempty)"

definition namespace_of :: "gomap \<Rightarrow> iface" where
  "namespace_of g = index (Some (metadata_of g)) ''namespace''"

definition lacks_namespace :: "gomap \<Rightarrow> bool" where
  "lacks_namespace g = (namespace_of g = VNull \<or> namespace_of g = VString [])"

definition with_namespace :: "gomap \<Rightarrow> string \<Rightarrow> gomap" where
  "with_namespace g namespace =
     fmupd ''metadata'' (VMap (fmupd ''namespace'' (VString namespace) (metadata_of g))) g"

definition backfill :: "gomap \<Rightarrow> string \<Rightarrow> gomap" where
  "backfill g namespace = (if lacks_namespace g then with_namespace g namespace else g)"

definition metadata_well_typed :: "gomap \<Rightarrow> bool" where
  "metadata_well_typed g =
     (index (Some g) ''metadata'' = VNull \<or> is_mapping (index (Some g) ''metadata''))"

text \<open>
  A marshaller to run the theorems on: it prints one key, \<^verbatim>\<open>foo\<close> with a string or
  \<^verbatim>\<open>a\<close> with the integer 0 or the float \<^verbatim>\<open>-0.0\<close>, and the namespace of a manifest
  the way \<^verbatim>\<open>yaml.v3\<close> does, and refuses every other manifest. The float \<^verbatim>\<open>-0.0\<close>
  is printed as \<^verbatim>\<open>-0\<close>, which the decoder reads as the integer 0.
\<close>

definition sample_entry :: "gomap \<Rightarrow> string option" where
  "sample_entry g =
     (case fmlookup g ''foo'' of
        Some (VString foo) \<Rightarrow> Some (''foo: '' @ foo)
      | _ \<Rightarrow>
          (case fmlookup g ''a'' of
             Some (VFloat w) \<Rightarrow> if w = 0x8000000000000000 then Some ''a: -0'' else None
           | Some (VInt i) \<Rightarrow> if i = 0 then Some ''a: 0'' else None
           | _ \<Rightarrow> None))"

definition sample_marshal :: marshaller where
  "sample_marshal g =
     (case (sample_entry g, namespace_of g) of
        (Some entry, VString namespace) \<Rightarrow>
          Inr (entry @ ''\<newline>metadata:\<newline>    namespace: '' @ namespace @ ''\<newline>'')
      | _ \<Rightarrow> Inl (External ''unsupported''))"

section \<open>Manifest cleaner (pkg/helm/template.go)\<close>

text \<open>
  \<^verbatim>\<open>strings.Split\<close> for a separator that is not empty, as the one call of the source
  has it: the text is cut at each occurrence of the separator, found from left to right
  without overlap. \<open>cur\<close> holds the piece read so far. (On the empty separator Go cuts
  after each character; the model is not meant for it.)
\<close>

function Split_from :: "string \<Rightarrow> string \<Rightarrow> string \<Rightarrow> string list" where
  "Split_from sep cur [] = [cur]"
| "Split_from sep cur (c # s) =
     (if sep \<noteq> [] \<and> take (length sep) (c # s) = sep
      then cur # Split_from sep [] (drop (length sep) (c # s))
      else Split_from sep (cur @ [c]) s)"
  by pat_completeness auto
termination
  by (relation "measure (\<lambda>(sep, cur, s). length s)") (auto simp: neq_Nil_conv)

definition Split :: "string \<Rightarrow> string \<Rightarrow> string list" where
  "Split s sep = Split_from sep [] s"

text \<open>
  \<^verbatim>\<open>strings.TrimSpace\<close> removes the leading and trailing white space that
  \<^verbatim>\<open>unicode.IsSpace\<close> defines. A Go string is a sequence of bytes, read as UTF-8, so
  each white space character is the byte sequence that encodes it: the six ASCII ones,
  U+0085, U+00A0, U+1680, U+2000 to U+200A, U+2028, U+2029, U+202F, U+205F and U+3000.
\<close>

definition space_runes :: "string list" where
  "space_runes =
     [[CHR 0x09], [CHR 0x0A], [CHR 0x0B], [CHR 0x0C], [CHR 0x0D], [CHR 0x20],
      [CHR 0xC2, CHR 0x85], [CHR 0xC2, CHR 0xA0], [CHR 0xE1, CHR 0x9A, CHR 0x80],
      [CHR 0xE2, CHR 0x80, CHR 0x80], [CHR 0xE2, CHR 0x80, CHR 0x81],
      [CHR 0xE2, CHR 0x80, CHR 0x82], [CHR 0xE2, CHR 0x80, CHR 0x83],
      [CHR 0xE2, CHR 0x80, CHR 0x84], [CHR 0xE2, CHR 0x80, CHR 0x85],
      [CHR 0xE2, CHR 0x80, CHR 0x86], [CHR 0xE2, CHR 0x80, CHR 0x87],
      [CHR 0xE2, CHR 0x80, CHR 0x88], [CHR 0xE2, CHR 0x80, CHR 0x89],
      [CHR 0xE2, CHR 0x80, CHR 0x8A], [CHR 0xE2, CHR 0x80, CHR 0xA8],
      [CHR 0xE2, CHR 0x80, CHR 0xA9], [CHR 0xE2, CHR 0x80, CHR 0xAF],
      [CHR 0xE2, CHR 0x81, CHR 0x9F], [CHR 0xE3, CHR 0x80, CHR 0x80]]"

text \<open>The number of bytes of the white space character a text starts with; 0 when it starts with none.\<close>

definition leading_space :: "string \<Rightarrow> nat" where
  "leading_space s =
     (case find (\<lambda>r. take (length r) s = r) space_runes of None \<Rightarrow> 0 | Some r \<Rightarrow> length r)"

function TrimLeft :: "string \<Rightarrow> string" where
  "TrimLeft s = (if 0 < leading_space s then TrimLeft (drop (leading_space s) s) else s)"
  by pat_completeness auto
termination
proof (relation "measure length")
  show "wf (measure length)"
    by simp
next
  fix s :: string
  assume "0 < leading_space s"
  moreover have "leading_space [] = 0"
    by (simp add: leading_space_def space_runes_def)
  ultimately have "s \<noteq> []"
    by auto
  with \<open>0 < leading_space s\<close> show "(drop (leading_space s) s, s) \<in> measure length"
    by simp
qed

text \<open>
  The encodings above are not suffixes of one another, and reading the last character of a
  text backwards finds the one it ends with; so trimming the end is trimming the start of
  the reversed text, with the encodings reversed.
\<close>

definition trailing_space :: "string \<Rightarrow> nat" where
  "trailing_space s =
     (case find (\<lambda>r. take (length r) (rev s) = rev r) space_runes of
        None \<Rightarrow> 0 | Some r \<Rightarrow> length r)"

function TrimRight :: "string \<Rightarrow> string" where
  "TrimRight s =
     (if 0 < trailing_space s then TrimRight (take (length s - trailing_space s) s) else s)"
  by pat_completeness auto
termination
proof (relation "measure length")
  show "wf (measure length)"
    by simp
next
  fix s :: string
  assume "0 < trailing_space s"
  moreover have "trailing_space [] = 0"
    by (simp add: trailing_space_def space_runes_def)
  ultimately have "s \<noteq> []"
    by auto
  with \<open>0 < trailing_space s\<close> show "(take (length s - trailing_space s) s, s) \<in> measure length"
    by simp
qed

definition TrimSpace :: "string \<Rightarrow> string" where
  "TrimSpace s = TrimRight (TrimLeft s)"

text \<open>
  \<^verbatim>\<open>yaml.Unmarshal\<close> into a \<^verbatim>\<open>map[string]interface{}\<close> is the third parameter
  taken from the library: it fails on text that is not yaml and on a document that is not a
  mapping, and leaves the nil map on an empty document.
\<close>

type_synonym unmarshaller = "string \<Rightarrow> error + manifest"

fun cleanManifest_loop :: "unmarshaller \<Rightarrow> string list \<Rightarrow> string list \<Rightarrow> string list" where
  "cleanManifest_loop Unmarshal [] cleaned = cleaned"
| "cleanManifest_loop Unmarshal (entry # rest) cleaned =
     (case Unmarshal entry of
        Inl err \<Rightarrow> cleanManifest_loop Unmarshal rest cleaned
      | Inr m \<Rightarrow>
          if length (TrimSpace entry) > 0
          then cleanManifest_loop Unmarshal rest (cleaned @ [entry])
          else cleanManifest_loop Unmarshal rest cleaned)"

definition cleanManifest :: "unmarshaller \<Rightarrow> string \<Rightarrow> string \<times> error option" where
  "cleanManifest Unmarshal manifest =
     (let manifests = Split manifest ''\<newline>---'';
          cleaned = cleanManifest_loop Unmarshal manifests [];
          joined = TrimSpace (Join cleaned ''\<newline>---'')
      in (joined, None))"

text \<open>
  An unmarshaller to run the theorems on: the fragments of the test of the repository, with
  what \<^verbatim>\<open>yaml.v3\<close> does on them; any other text is refused.
\<close>

definition sample_unmarshal :: unmarshaller where
  "sample_unmarshal entry =
     (if entry = ''foo: I am valid'' then
        Inr (Some (fmupd ''foo'' (VString ''I am valid'') fmempty))
      else if entry = ''\<newline>bar: I am valid'' then
        Inr (Some (fmupd ''bar'' (VString ''I am valid'') fmempty))
      else if entry = [] \<or> entry = ''\<newline>'' then Inr None
      else Inl (External ''cannot unmarshal into map[string]interface {}''))"

section \<open>Running helm (pkg/helm)\<close>


















section \<open>Properties of the decoder\<close>

lemma Decode_loop_Invalid:
  "Invalid \<in> set ds \<Longrightarrow> Decode_loop doc ds values = Inl (DecodingYaml doc)"
  by (induction doc ds "values" rule: Decode_loop.induct) auto

lemma DecodeMaps_loop_ok:
  "\<forall>v\<in>set vs. v = VNull \<or> is_mapping v \<Longrightarrow>
   DecodeMaps_loop vs maps = Inr (maps @ map as_manifest vs)"
  by (induction vs maps rule: DecodeMaps_loop.induct) auto

lemma DecodeMaps_loop_bad:
  "\<exists>v\<in>set vs. v \<noteq> VNull \<and> \<not> is_mapping v \<Longrightarrow>
   \<exists>v\<in>set vs. v \<noteq> VNull \<and> \<not> is_mapping v \<and> DecodeMaps_loop vs maps = Inl (UnableToReflect v)"
  by (induction vs maps rule: DecodeMaps_loop.induct) auto

lemma as_manifest_nth:
  "i < length vs \<Longrightarrow>
   (vs ! i = VNull \<longrightarrow> map as_manifest vs ! i = None) \<and>
   (\<forall>g. vs ! i = VMap g \<longrightarrow> map as_manifest vs ! i = Some g)"
  by simp

text \<open>
  C6. \<^verbatim>\<open>Decode\<close> of the empty input is the empty sequence and no error, not an error and
  not a single null document. That the library reads no document from zero bytes is the
  hypothesis on the parameter.
\<close>

theorem Decode_empty_input:
  "NewDecoder [] = [] \<Longrightarrow>
   Decode NewDecoder [] = Inr [] \<and> Decode NewDecoder [] \<noteq> Inr [VNull] \<and>
   (\<forall>err. Decode NewDecoder [] \<noteq> Inl err)"
  by (simp add: Decode_def)

theorem Decode_empty_input_witness:
  "sample_decoder [] = [] \<and>
   Decode sample_decoder [] = Inr [] \<and> Decode sample_decoder [] \<noteq> Inr [VNull] \<and>
   (\<forall>err. Decode sample_decoder [] \<noteq> Inl err)"
proof -
  have h: "sample_decoder [] = []"
    by (simp add: sample_decoder_def)
  show ?thesis
    by (rule conjI [OF h Decode_empty_input [of sample_decoder, OF h]])
qed

text \<open>
  C5. When one of the documents of the input is syntactically invalid, \<^verbatim>\<open>Decode\<close>
  returns the error that carries the whole raw input and no sequence of documents, however
  many valid documents come before the invalid one.
\<close>

theorem Decode_all_or_nothing:
  "Invalid \<in> set (NewDecoder doc) \<Longrightarrow>
   Decode NewDecoder doc = Inl (DecodingYaml doc) \<and>
   (\<forall>vs. Decode NewDecoder doc \<noteq> Inr vs)"
  by (simp add: Decode_def Decode_loop_Invalid)

theorem Decode_all_or_nothing_witness:
  "Invalid \<in> set (sample_decoder ''foo: bar\<newline>---\<newline>foo: [bar'') \<and>
   Decode sample_decoder ''foo: bar\<newline>---\<newline>foo: [bar'' =
     Inl (DecodingYaml ''foo: bar\<newline>---\<newline>foo: [bar'') \<and>
   (\<forall>vs. Decode sample_decoder ''foo: bar\<newline>---\<newline>foo: [bar'' \<noteq> Inr vs)"
proof -
  have h: "Invalid \<in> set (sample_decoder ''foo: bar\<newline>---\<newline>foo: [bar'')"
    by (simp add: sample_decoder_def)
  show ?thesis
    by (rule conjI [OF h Decode_all_or_nothing [of sample_decoder, OF h]])
qed

lemma DecodeMaps_eq:
  "Decode NewDecoder doc = Inr values \<Longrightarrow> DecodeMaps NewDecoder doc = DecodeMaps_loop values []"
  by (simp add: DecodeMaps_def)

text \<open>
  C1. On an input that \<^verbatim>\<open>Decode\<close> reads without error as the documents \<open>values\<close>:
  when every document is Null or a Mapping, \<^verbatim>\<open>DecodeMaps\<close> returns as many entries as
  there are documents, the nil map at the position of each Null document and the mapping
  itself at the position of each Mapping; when some document is anything else (a scalar or a
  sequence), the call returns an error naming such a document, and no entries.
\<close>

theorem DecodeMaps_projection:
  assumes "Decode NewDecoder doc = Inr values"
  shows "if \<forall>v\<in>set values. v = VNull \<or> is_mapping v
         then \<exists>maps. DecodeMaps NewDecoder doc = Inr maps \<and> length maps = length values \<and>
                (\<forall>i<length values.
                   (values ! i = VNull \<longrightarrow> maps ! i = None) \<and>
                   (\<forall>g. values ! i = VMap g \<longrightarrow> maps ! i = Some g))
         else \<exists>v\<in>set values. v \<noteq> VNull \<and> \<not> is_mapping v \<and>
                DecodeMaps NewDecoder doc = Inl (UnableToReflect v)"
proof (cases "\<forall>v\<in>set values. v = VNull \<or> is_mapping v")
  case True
  have a: "DecodeMaps NewDecoder doc = Inr (map as_manifest values)"
    using DecodeMaps_loop_ok [OF True, of "[]"] by (simp add: DecodeMaps_eq [OF assms])
  have c: "\<forall>i<length values.
      (values ! i = VNull \<longrightarrow> map as_manifest values ! i = None) \<and>
      (\<forall>g. values ! i = VMap g \<longrightarrow> map as_manifest values ! i = Some g)"
    by simp
  have ex: "\<exists>maps. DecodeMaps NewDecoder doc = Inr maps \<and> length maps = length values \<and>
                (\<forall>i<length values.
                   (values ! i = VNull \<longrightarrow> maps ! i = None) \<and>
                   (\<forall>g. values ! i = VMap g \<longrightarrow> maps ! i = Some g))"
    by (rule exI [of _ "map as_manifest values"]) (simp add: a)
  show ?thesis
    by (subst if_P [OF True]) (rule ex)
next
  case False
  then have "\<exists>v\<in>set values. v \<noteq> VNull \<and> \<not> is_mapping v"
    by blast
  from DecodeMaps_loop_bad [OF this, of "[]"]
  have bad: "\<exists>v\<in>set values. v \<noteq> VNull \<and> \<not> is_mapping v \<and>
                DecodeMaps NewDecoder doc = Inl (UnableToReflect v)"
    by (simp only: DecodeMaps_eq [OF assms])
  show ?thesis
    by (subst if_not_P [OF False]) (rule bad)
qed

theorem DecodeMaps_projection_witness:
  "Decode sample_decoder ''---\<newline>---\<newline>foo: bar'' =
     Inr [VNull, VMap (fmupd ''foo'' (VString ''bar'') fmempty)] \<and>
   (if \<forall>v\<in>set [VNull, VMap (fmupd ''foo'' (VString ''bar'') fmempty)]. v = VNull \<or> is_mapping v
    then \<exists>maps. DecodeMaps sample_decoder ''---\<newline>---\<newline>foo: bar'' = Inr maps \<and>
           length maps = length [VNull, VMap (fmupd ''foo'' (VString ''bar'') fmempty)] \<and>
           (\<forall>i<length [VNull, VMap (fmupd ''foo'' (VString ''bar'') fmempty)].
              ([VNull, VMap (fmupd ''foo'' (VString ''bar'') fmempty)] ! i = VNull \<longrightarrow> maps ! i = None) \<and>
              (\<forall>g. [VNull, VMap (fmupd ''foo'' (VString ''bar'') fmempty)] ! i = VMap g \<longrightarrow>
                   maps ! i = Some g))
    else \<exists>v\<in>set [VNull, VMap (fmupd ''foo'' (VString ''bar'') fmempty)].
           v \<noteq> VNull \<and> \<not> is_mapping v \<and>
           DecodeMaps sample_decoder ''---\<newline>---\<newline>foo: bar'' = Inl (UnableToReflect v))"
proof -
  have h: "Decode sample_decoder ''---\<newline>---\<newline>foo: bar'' =
     Inr [VNull, VMap (fmupd ''foo'' (VString ''bar'') fmempty)]"
    by (simp add: Decode_def sample_decoder_def)
  show ?thesis
    by (rule conjI [OF h DecodeMaps_projection [OF h]])
qed

text \<open>
  The example of the specification: the three documents (mapping, mapping, sequence) decode,
  and their projection fails on the sequence.
\<close>

lemma DecodeMaps_three_documents:
  "Decode sample_decoder ''foo: bar\<newline>---\<newline>baz: zoo\<newline>---\<newline>- a\<newline>- b'' =
     Inr [VMap (fmupd ''foo'' (VString ''bar'') fmempty),
          VMap (fmupd ''baz'' (VString ''zoo'') fmempty),
          VSeq [VString ''a'', VString ''b'']] \<and>
   DecodeMaps sample_decoder ''foo: bar\<newline>---\<newline>baz: zoo\<newline>---\<newline>- a\<newline>- b'' =
     Inl (UnableToReflect (VSeq [VString ''a'', VString ''b'']))"
  by (simp add: DecodeMaps_def Decode_def sample_decoder_def)

section \<open>Properties of the namespace injector\<close>

text \<open>
  C2. On a manifest whose metadata mapping holds a namespace value that is not null,
  \<^verbatim>\<open>injectNamespace\<close> returns the collision error for every namespace string, and the
  manifest is after the call what it was before: its metadata mapping is the same and
  \<^verbatim>\<open>metadata.namespace\<close> still holds its value.
\<close>

theorem injectNamespace_collision:
  assumes "fmlookup g ''metadata'' = Some (VMap metadata)"
    and "fmlookup metadata ''namespace'' = Some v" and "v \<noteq> VNull"
  shows "injectNamespace (Some g) namespace = (Some g, Inl (ExistingNamespace g)) \<and>
         index (fst (injectNamespace (Some g) namespace)) ''metadata'' = VMap metadata"
  using assms by (simp add: injectNamespace_def index_def has_key_def Let_def)

theorem injectNamespace_collision_witness:
  "fmlookup (fmupd ''metadata'' (VMap (fmupd ''namespace'' (VString ''existing'') fmempty)) fmempty)
     ''metadata'' = Some (VMap (fmupd ''namespace'' (VString ''existing'') fmempty)) \<and>
   fmlookup (fmupd ''namespace'' (VString ''existing'') fmempty) ''namespace'' =
     Some (VString ''existing'') \<and>
   VString ''existing'' \<noteq> VNull \<and>
   injectNamespace
     (Some (fmupd ''metadata'' (VMap (fmupd ''namespace'' (VString ''existing'') fmempty)) fmempty))
     ''foo'' =
     (Some (fmupd ''metadata'' (VMap (fmupd ''namespace'' (VString ''existing'') fmempty)) fmempty),
      Inl (ExistingNamespace
        (fmupd ''metadata'' (VMap (fmupd ''namespace'' (VString ''existing'') fmempty)) fmempty)))"
proof -
  have h1: "fmlookup (fmupd ''metadata'' (VMap (fmupd ''namespace'' (VString ''existing'') fmempty)) fmempty)
     ''metadata'' = Some (VMap (fmupd ''namespace'' (VString ''existing'') fmempty))"
    by simp
  have h2: "fmlookup (fmupd ''namespace'' (VString ''existing'') fmempty) ''namespace'' =
     Some (VString ''existing'')"
    by simp
  have h3: "VString ''existing'' \<noteq> VNull"
    by simp
  from injectNamespace_collision [OF h1 h2 h3, of "''foo''"] h1 h2 h3 show ?thesis
    by (intro conjI) (erule conjunct1 | assumption)+
qed

text \<open>
  C4. On the nil manifest \<^verbatim>\<open>injectNamespace\<close> returns nil and no error, for every
  namespace string. On a manifest without the key \<^verbatim>\<open>metadata\<close> it creates the metadata
  mapping, sets \<^verbatim>\<open>metadata.namespace\<close> to the supplied name and returns the manifest it
  was given, which now holds that mapping, with no error.
\<close>

theorem injectNamespace_nil_and_absent_metadata:
  "injectNamespace None namespace = (None, Inr None) \<and>
   (fmlookup g ''metadata'' = None \<longrightarrow>
      injectNamespace (Some g) namespace =
        (Some (fmupd ''metadata'' (VMap (fmupd ''namespace'' (VString namespace) fmempty)) g),
         Inr (Some (fmupd ''metadata'' (VMap (fmupd ''namespace'' (VString namespace) fmempty)) g))))"
  by (simp add: injectNamespace_def index_def has_key_def Let_def)

theorem injectNamespace_nil_and_absent_metadata_witness:
  "injectNamespace None ''foo'' = (None, Inr None) \<and>
   fmlookup (fmempty :: gomap) ''metadata'' = None \<and>
   injectNamespace (Some fmempty) ''foo'' =
     (Some (fmupd ''metadata'' (VMap (fmupd ''namespace'' (VString ''foo'') fmempty)) fmempty),
      Inr (Some (fmupd ''metadata'' (VMap (fmupd ''namespace'' (VString ''foo'') fmempty)) fmempty)))"
proof -
  have h: "fmlookup (fmempty :: gomap) ''metadata'' = None"
    by simp
  from injectNamespace_nil_and_absent_metadata [of "''foo''" fmempty] h show ?thesis
    by simp
qed

section \<open>Properties of the batch injector\<close>

lemma injectNamespaceBack_step_backfill:
  "metadata_well_typed g \<Longrightarrow> injectNamespaceBack_step (Some g) namespace = Inr (backfill g namespace)"
  by (cases "index (Some g) ''metadata''")
     (auto simp: injectNamespaceBack_step_def backfill_def lacks_namespace_def namespace_of_def
        metadata_of_def with_namespace_def metadata_well_typed_def index_def)

lemma injectNamespaceBack_step_idem:
  "injectNamespaceBack_step m namespace = Inr g \<Longrightarrow>
   injectNamespaceBack_step (Some g) namespace = Inr g"
  apply (cases m)
   apply (simp add: injectNamespaceBack_step_def)
  apply (cases "index m ''metadata''")
  apply (auto simp: injectNamespaceBack_step_def index_def
      split: if_splits option.splits iface.splits)
  done

lemma injectNamespaceBack_loop_ok:
  "list_all2 (\<lambda>m g. injectNamespaceBack_step m namespace = Inr g) ms gs \<Longrightarrow>
   list_all2 (\<lambda>g t. Marshal g = Inr t) gs texts \<Longrightarrow>
   injectNamespaceBack_loop Marshal namespace ms acc = Inr (acc @ texts)"
proof (induction ms arbitrary: gs texts acc)
  case Nil
  then show ?case by simp
next
  case (Cons m ms)
  from Cons.prems(1) obtain g gs' where gs: "gs = g # gs'"
    and g: "injectNamespaceBack_step m namespace = Inr g"
    and rest: "list_all2 (\<lambda>m g. injectNamespaceBack_step m namespace = Inr g) ms gs'"
    by (auto simp: list_all2_Cons1)
  from Cons.prems(2) gs obtain t texts' where texts: "texts = t # texts'"
    and t: "Marshal g = Inr t"
    and rest': "list_all2 (\<lambda>g t. Marshal g = Inr t) gs' texts'"
    by (auto simp: list_all2_Cons1)
  from Cons.IH [OF rest rest', of "acc @ [t]"] show ?case
    by (simp add: g t texts)
qed

lemma injectNamespaceBack_loop_Inr:
  "injectNamespaceBack_loop Marshal namespace ms acc = Inr out \<Longrightarrow>
   \<exists>gs texts. list_all2 (\<lambda>m g. injectNamespaceBack_step m namespace = Inr g) ms gs \<and>
      list_all2 (\<lambda>g t. Marshal g = Inr t) gs texts \<and> out = acc @ texts"
proof (induction ms arbitrary: acc)
  case Nil
  then show ?case by simp
next
  case (Cons m ms)
  from Cons.prems obtain g t where g: "injectNamespaceBack_step m namespace = Inr g"
    and t: "Marshal g = Inr t"
    and r: "injectNamespaceBack_loop Marshal namespace ms (acc @ [t]) = Inr out"
    by (auto split: sum.splits)
  from Cons.IH [OF r] obtain gs texts where
    a: "list_all2 (\<lambda>m g. injectNamespaceBack_step m namespace = Inr g) ms gs"
    and b: "list_all2 (\<lambda>g t. Marshal g = Inr t) gs texts" and c: "out = (acc @ [t]) @ texts"
    by blast
  have "list_all2 (\<lambda>m g. injectNamespaceBack_step m namespace = Inr g) (m # ms) (g # gs)"
    using g a by simp
  moreover have "list_all2 (\<lambda>g t. Marshal g = Inr t) (g # gs) (t # texts)"
    using t b by simp
  moreover have "out = acc @ (t # texts)"
    using c by simp
  ultimately show ?case by blast
qed

lemma injectNamespaceBack_step_fails_iff:
  "isl (injectNamespaceBack_step (Some g) namespace) = (\<not> metadata_well_typed g)"
  by (cases "index (Some g) ''metadata''")
     (auto simp: injectNamespaceBack_step_def metadata_well_typed_def)

text \<open>
  C3. On a text that decodes to the manifest set \<open>gs\<close> (every document a mapping, with a
  metadata that is absent, null or a mapping), \<^verbatim>\<open>injectNamespaceBack\<close> returns the
  marshalled texts, joined, of the manifests of \<open>gs\<close> in which exactly those whose
  namespace is missing, null or the empty string have \<^verbatim>\<open>metadata.namespace\<close> set to the
  supplied namespace and every other one is untouched. Whether a manifest makes the call fail
  depends on the type of its metadata only, never on its namespace. That the library
  marshals these manifests is the hypothesis on the parameter.
\<close>

theorem injectNamespaceBack_backfills:
  assumes "DecodeMaps NewDecoder unifiedManifest = Inr (map Some gs)"
    and "\<forall>g\<in>set gs. metadata_well_typed g"
    and "list_all2 (\<lambda>g t. Marshal (backfill g namespace) = Inr t) gs texts"
  shows "injectNamespaceBack NewDecoder Marshal unifiedManifest namespace =
           Inr (Join texts ''\<newline>---\<newline>'') \<and>
         (\<forall>g\<in>set gs. injectNamespaceBack_step (Some g) namespace =
            Inr (if namespace_of g = VNull \<or> namespace_of g = VString []
                 then with_namespace g namespace else g)) \<and>
         (\<forall>g. isl (injectNamespaceBack_step (Some g) namespace) = (\<not> metadata_well_typed g))"
proof -
  have steps: "\<forall>g\<in>set gs. injectNamespaceBack_step (Some g) namespace = Inr (backfill g namespace)"
    using assms(2) injectNamespaceBack_step_backfill by blast
  then have a: "list_all2 (\<lambda>m g. injectNamespaceBack_step m namespace = Inr g)
      (map Some gs) (map (\<lambda>g. backfill g namespace) gs)"
    by (simp add: list_all2_map1 list_all2_map2 list_all2_same)
  have b: "list_all2 (\<lambda>g t. Marshal g = Inr t) (map (\<lambda>g. backfill g namespace) gs) texts"
    using assms(3) by (simp add: list_all2_map1)
  have "injectNamespaceBack_loop Marshal namespace (map Some gs) [] = Inr texts"
    using injectNamespaceBack_loop_ok [OF a b, of "[]"] by simp
  then have "injectNamespaceBack NewDecoder Marshal unifiedManifest namespace =
           Inr (Join texts ''\<newline>---\<newline>'')"
    by (simp add: injectNamespaceBack_def assms(1))
  moreover have "\<forall>g\<in>set gs. injectNamespaceBack_step (Some g) namespace =
            Inr (if namespace_of g = VNull \<or> namespace_of g = VString []
                 then with_namespace g namespace else g)"
    using steps by (simp add: backfill_def lacks_namespace_def)
  moreover have "\<forall>g. isl (injectNamespaceBack_step (Some g) namespace) = (\<not> metadata_well_typed g)"
    using injectNamespaceBack_step_fails_iff by blast
  ultimately show ?thesis by (intro conjI)
qed

text \<open>
  C8, as the code has it. When \<^verbatim>\<open>injectNamespaceBack\<close> succeeds on a text with the
  result \<open>out\<close>, and the decoder reads from \<open>out\<close> the manifests \<open>gs\<close> that were marshalled
  into it, it returns \<open>out\<close> again on \<open>out\<close> with the same namespace. The output is text,
  so the second call decodes what the first one marshalled, and the condition on the round
  trip is needed: \<^verbatim>\<open>yaml.v3\<close> does not read back every value that it writes.
\<close>

theorem injectNamespaceBack_idempotent:
  assumes "DecodeMaps NewDecoder unifiedManifest = Inr manifests"
    and "injectNamespaceBack NewDecoder Marshal unifiedManifest namespace = Inr out"
    and "list_all2 (\<lambda>m g. injectNamespaceBack_step m namespace = Inr g) manifests gs"
    and "DecodeMaps NewDecoder out = Inr (map Some gs)"
  shows "injectNamespaceBack NewDecoder Marshal out namespace = Inr out"
proof -
  from assms(1,2) obtain texts where
    l: "injectNamespaceBack_loop Marshal namespace manifests [] = Inr texts"
    and out: "out = Join texts ''\<newline>---\<newline>''"
    by (auto simp: injectNamespaceBack_def split: sum.splits)
  from injectNamespaceBack_loop_Inr [OF l] obtain gs' texts' where
    a: "list_all2 (\<lambda>m g. injectNamespaceBack_step m namespace = Inr g) manifests gs'"
    and b: "list_all2 (\<lambda>g t. Marshal g = Inr t) gs' texts'" and c: "texts = texts'"
    by auto
  have "gs' = gs"
    using a assms(3)
  proof (induction manifests arbitrary: gs gs')
    case Nil
    then show ?case by simp
  next
    case (Cons m ms)
    then show ?case by (auto simp: list_all2_Cons1)
  qed
  with b c have b': "list_all2 (\<lambda>g t. Marshal g = Inr t) gs texts"
    by simp
  have "\<forall>g\<in>set gs. injectNamespaceBack_step (Some g) namespace = Inr g"
  proof
    fix g assume "g \<in> set gs"
    then obtain i where i: "i < length gs" and g: "gs ! i = g"
      by (auto simp: in_set_conv_nth)
    from assms(3) i have "injectNamespaceBack_step (manifests ! i) namespace = Inr (gs ! i)"
      by (simp add: list_all2_conv_all_nth)
    from injectNamespaceBack_step_idem [OF this] g show "injectNamespaceBack_step (Some g) namespace = Inr g"
      by simp
  qed
  then have a': "list_all2 (\<lambda>m g. injectNamespaceBack_step m namespace = Inr g) (map Some gs) gs"
    by (simp add: list_all2_map1 list_all2_same)
  have "injectNamespaceBack_loop Marshal namespace (map Some gs) [] = Inr texts"
    using injectNamespaceBack_loop_ok [OF a' b', of "[]"] by simp
  moreover have "DecodeMaps NewDecoder (Join texts ''\<newline>---\<newline>'') = Inr (map Some gs)"
    using assms(4) out by simp
  ultimately show ?thesis
    by (simp add: injectNamespaceBack_def out)
qed

theorem injectNamespaceBack_backfills_witness:
  "DecodeMaps sample_decoder ''foo: bar'' = Inr (map Some [fmupd ''foo'' (VString ''bar'') fmempty]) \<and>
   metadata_well_typed (fmupd ''foo'' (VString ''bar'') fmempty) \<and>
   list_all2 (\<lambda>g t. sample_marshal (backfill g ''ns'') = Inr t)
     [fmupd ''foo'' (VString ''bar'') fmempty]
     [''foo: bar\<newline>metadata:\<newline>    namespace: ns\<newline>''] \<and>
   injectNamespaceBack sample_decoder sample_marshal ''foo: bar'' ''ns'' =
     Inr ''foo: bar\<newline>metadata:\<newline>    namespace: ns\<newline>''"
proof -
  have h1: "DecodeMaps sample_decoder ''foo: bar'' =
      Inr (map Some [fmupd ''foo'' (VString ''bar'') fmempty])"
    by (simp add: DecodeMaps_def Decode_def sample_decoder_def)
  have h2': "metadata_well_typed (fmupd ''foo'' (VString ''bar'') fmempty)"
    by (simp add: metadata_well_typed_def index_def)
  then have h2: "\<forall>g\<in>set [fmupd ''foo'' (VString ''bar'') fmempty]. metadata_well_typed g"
    by simp
  have h3: "list_all2 (\<lambda>g t. sample_marshal (backfill g ''ns'') = Inr t)
     [fmupd ''foo'' (VString ''bar'') fmempty]
     [''foo: bar\<newline>metadata:\<newline>    namespace: ns\<newline>'']"
    by (simp add: sample_marshal_def sample_entry_def backfill_def lacks_namespace_def with_namespace_def
        namespace_of_def metadata_of_def index_def)
  from injectNamespaceBack_backfills [OF h1 h2 h3]
  have "injectNamespaceBack sample_decoder sample_marshal ''foo: bar'' ''ns'' =
     Inr ''foo: bar\<newline>metadata:\<newline>    namespace: ns\<newline>''"
    by simp
  with h1 h2' h3 show ?thesis
    by (intro conjI)
qed

theorem injectNamespaceBack_idempotent_witness:
  "DecodeMaps sample_decoder ''foo: bar'' = Inr [Some (fmupd ''foo'' (VString ''bar'') fmempty)] \<and>
   injectNamespaceBack sample_decoder sample_marshal ''foo: bar'' ''ns'' =
     Inr ''foo: bar\<newline>metadata:\<newline>    namespace: ns\<newline>'' \<and>
   list_all2 (\<lambda>m g. injectNamespaceBack_step m ''ns'' = Inr g)
     [Some (fmupd ''foo'' (VString ''bar'') fmempty)]
     [fmupd ''metadata'' (VMap (fmupd ''namespace'' (VString ''ns'') fmempty))
        (fmupd ''foo'' (VString ''bar'') fmempty)] \<and>
   DecodeMaps sample_decoder ''foo: bar\<newline>metadata:\<newline>    namespace: ns\<newline>'' =
     Inr (map Some [fmupd ''metadata'' (VMap (fmupd ''namespace'' (VString ''ns'') fmempty))
        (fmupd ''foo'' (VString ''bar'') fmempty)]) \<and>
   injectNamespaceBack sample_decoder sample_marshal
     ''foo: bar\<newline>metadata:\<newline>    namespace: ns\<newline>'' ''ns'' =
     Inr ''foo: bar\<newline>metadata:\<newline>    namespace: ns\<newline>''"
proof -
  have h1: "DecodeMaps sample_decoder ''foo: bar'' =
      Inr [Some (fmupd ''foo'' (VString ''bar'') fmempty)]"
    by (simp add: DecodeMaps_def Decode_def sample_decoder_def)
  have h3: "list_all2 (\<lambda>m g. injectNamespaceBack_step m ''ns'' = Inr g)
     [Some (fmupd ''foo'' (VString ''bar'') fmempty)]
     [fmupd ''metadata'' (VMap (fmupd ''namespace'' (VString ''ns'') fmempty))
        (fmupd ''foo'' (VString ''bar'') fmempty)]"
    by (simp add: injectNamespaceBack_step_def index_def)
  have m: "sample_marshal (fmupd ''metadata'' (VMap (fmupd ''namespace'' (VString ''ns'') fmempty))
        (fmupd ''foo'' (VString ''bar'') fmempty)) =
      Inr ''foo: bar\<newline>metadata:\<newline>    namespace: ns\<newline>''"
    by (simp add: sample_marshal_def sample_entry_def namespace_of_def metadata_of_def index_def)
  have h2: "injectNamespaceBack sample_decoder sample_marshal ''foo: bar'' ''ns'' =
     Inr ''foo: bar\<newline>metadata:\<newline>    namespace: ns\<newline>''"
    using h3 by (simp add: injectNamespaceBack_def h1 m)
  have h4: "DecodeMaps sample_decoder ''foo: bar\<newline>metadata:\<newline>    namespace: ns\<newline>'' =
     Inr (map Some [fmupd ''metadata'' (VMap (fmupd ''namespace'' (VString ''ns'') fmempty))
        (fmupd ''foo'' (VString ''bar'') fmempty)])"
    by (simp add: DecodeMaps_def Decode_def sample_decoder_def)
  from injectNamespaceBack_idempotent [OF h1 h2 h3 h4] h1 h2 h3 h4 show ?thesis
    by (intro conjI)
qed

text \<open>
  Without the condition on the round trip C8 fails, and it fails with
  \<^verbatim>\<open>yaml.v3\<close>: the float \<^verbatim>\<open>-0.0\<close> is marshalled as \<^verbatim>\<open>-0\<close>, which decodes to the
  integer 0 and is marshalled as \<^verbatim>\<open>0\<close>. Both calls succeed and the second result is
  not the first.
\<close>

theorem injectNamespaceBack_twice_differs:
  "injectNamespaceBack sample_decoder sample_marshal ''a: -0.0'' ''ns'' =
     Inr ''a: -0\<newline>metadata:\<newline>    namespace: ns\<newline>'' \<and>
   injectNamespaceBack sample_decoder sample_marshal
     ''a: -0\<newline>metadata:\<newline>    namespace: ns\<newline>'' ''ns'' =
     Inr ''a: 0\<newline>metadata:\<newline>    namespace: ns\<newline>'' \<and>
   injectNamespaceBack sample_decoder sample_marshal
     ''a: -0\<newline>metadata:\<newline>    namespace: ns\<newline>'' ''ns'' \<noteq>
     Inr ''a: -0\<newline>metadata:\<newline>    namespace: ns\<newline>''"
  by (simp add: injectNamespaceBack_def injectNamespaceBack_step_def DecodeMaps_def Decode_def
      sample_decoder_def sample_marshal_def sample_entry_def namespace_of_def metadata_of_def
      index_def)

text \<open>
  C10. On a manifest whose key \<^verbatim>\<open>metadata\<close> is present with a null value,
  \<^verbatim>\<open>injectNamespace\<close> returns the type error and leaves the manifest as it is; it
  creates the mapping only when the key is absent. The batch form treats the null value like
  the absent key: in both cases it stores a new metadata mapping that holds the namespace,
  and the call returns the marshalled text of that manifest.
\<close>

theorem null_metadata_strict_and_batch:
  "(fmlookup g ''metadata'' = Some VNull \<longrightarrow>
      injectNamespace (Some g) namespace = (Some g, Inl (ReflectingMetadata g)) \<and>
      injectNamespaceBack_step (Some g) namespace =
        Inr (fmupd ''metadata'' (VMap (fmupd ''namespace'' (VString namespace) fmempty)) g) \<and>
      (DecodeMaps NewDecoder unifiedManifest = Inr [Some g] \<and>
       Marshal (fmupd ''metadata'' (VMap (fmupd ''namespace'' (VString namespace) fmempty)) g) = Inr t
       \<longrightarrow> injectNamespaceBack NewDecoder Marshal unifiedManifest namespace = Inr t)) \<and>
   (fmlookup g ''metadata'' = None \<longrightarrow>
      injectNamespace (Some g) namespace =
        (Some (fmupd ''metadata'' (VMap (fmupd ''namespace'' (VString namespace) fmempty)) g),
         Inr (Some (fmupd ''metadata'' (VMap (fmupd ''namespace'' (VString namespace) fmempty)) g))) \<and>
      injectNamespaceBack_step (Some g) namespace =
        Inr (fmupd ''metadata'' (VMap (fmupd ''namespace'' (VString namespace) fmempty)) g))"
  by (simp add: injectNamespace_def injectNamespaceBack_step_def injectNamespaceBack_def
      index_def has_key_def Let_def)

theorem null_metadata_strict_and_batch_witness:
  "fmlookup (fmupd ''metadata'' VNull (fmupd ''foo'' (VString ''bar'') fmempty)) ''metadata'' =
     Some VNull \<and>
   injectNamespace (Some (fmupd ''metadata'' VNull (fmupd ''foo'' (VString ''bar'') fmempty))) ''ns'' =
     (Some (fmupd ''metadata'' VNull (fmupd ''foo'' (VString ''bar'') fmempty)),
      Inl (ReflectingMetadata (fmupd ''metadata'' VNull (fmupd ''foo'' (VString ''bar'') fmempty)))) \<and>
   DecodeMaps sample_decoder ''foo: bar\<newline>metadata: null'' =
     Inr [Some (fmupd ''metadata'' VNull (fmupd ''foo'' (VString ''bar'') fmempty))] \<and>
   sample_marshal (fmupd ''metadata'' (VMap (fmupd ''namespace'' (VString ''ns'') fmempty))
       (fmupd ''metadata'' VNull (fmupd ''foo'' (VString ''bar'') fmempty))) =
     Inr ''foo: bar\<newline>metadata:\<newline>    namespace: ns\<newline>'' \<and>
   injectNamespaceBack sample_decoder sample_marshal ''foo: bar\<newline>metadata: null'' ''ns'' =
     Inr ''foo: bar\<newline>metadata:\<newline>    namespace: ns\<newline>'' \<and>
   fmlookup (fmempty :: gomap) ''metadata'' = None \<and>
   injectNamespaceBack_step (Some fmempty) ''ns'' =
     Inr (fmupd ''metadata'' (VMap (fmupd ''namespace'' (VString ''ns'') fmempty)) fmempty)"
proof -
  have h1: "fmlookup (fmupd ''metadata'' VNull (fmupd ''foo'' (VString ''bar'') fmempty)) ''metadata'' =
     Some VNull"
    by simp
  have h2: "DecodeMaps sample_decoder ''foo: bar\<newline>metadata: null'' =
     Inr [Some (fmupd ''metadata'' VNull (fmupd ''foo'' (VString ''bar'') fmempty))]"
    by (simp add: DecodeMaps_def Decode_def sample_decoder_def)
  have h3: "sample_marshal (fmupd ''metadata'' (VMap (fmupd ''namespace'' (VString ''ns'') fmempty))
       (fmupd ''metadata'' VNull (fmupd ''foo'' (VString ''bar'') fmempty))) =
     Inr ''foo: bar\<newline>metadata:\<newline>    namespace: ns\<newline>''"
    by (simp add: sample_marshal_def sample_entry_def namespace_of_def metadata_of_def index_def)
  have h4: "fmlookup (fmempty :: gomap) ''metadata'' = None"
    by simp
  note a = null_metadata_strict_and_batch
    [where g = "fmupd ''metadata'' VNull (fmupd ''foo'' (VString ''bar'') fmempty)"
       and namespace = "''ns''" and NewDecoder = sample_decoder
       and unifiedManifest = "''foo: bar\<newline>metadata: null''" and Marshal = sample_marshal
       and t = "''foo: bar\<newline>metadata:\<newline>    namespace: ns\<newline>''",
     THEN conjunct1, THEN mp, OF h1]
  note b = null_metadata_strict_and_batch
    [where g = fmempty and namespace = "''ns''", THEN conjunct2, THEN mp, OF h4, THEN conjunct2]
  note a1 = a [THEN conjunct1]
  note a3 = a [THEN conjunct2, THEN conjunct2, THEN mp, OF conjI [OF h2 h3]]
  show ?thesis
    by (rule conjI [OF h1 conjI [OF a1 conjI [OF h2 conjI [OF h3 conjI [OF a3 conjI [OF h4 b]]]]]])
qed

text \<open>
  Outside the manifest sets of C3: a null document in the stream is the nil map, and the
  loop panics on it, whatever comes after it.
\<close>

lemma injectNamespaceBack_nil_document:
  "DecodeMaps NewDecoder unifiedManifest = Inr (None # rest) \<Longrightarrow>
   injectNamespaceBack NewDecoder Marshal unifiedManifest namespace = Inl PanicNilMap"
  by (simp add: injectNamespaceBack_def injectNamespaceBack_step_def)

lemma injectNamespaceBack_nil_document_example:
  "injectNamespaceBack sample_decoder sample_marshal ''---'' ''ns'' = Inl PanicNilMap"
  by (simp add: injectNamespaceBack_def injectNamespaceBack_step_def DecodeMaps_def Decode_def
      sample_decoder_def)

section \<open>Properties of the manifest cleaner\<close>

lemma cleanManifest_loop_filter:
  "cleanManifest_loop Unmarshal entries cleaned =
     cleaned @ filter (\<lambda>entry. \<not> isl (Unmarshal entry) \<and> TrimSpace entry \<noteq> []) entries"
  by (induction entries arbitrary: cleaned) (auto split: sum.splits)

lemma Split_example:
  "Split ''foo: I am valid\<newline>---\<newline>I'm not valid\<newline>---\<newline>bar: I am valid'' ''\<newline>---'' =
     [''foo: I am valid'', ''\<newline>I'm not valid'', ''\<newline>bar: I am valid'']"
  by code_simp

lemma TrimSpace_example:
  "TrimSpace ''foo: I am valid\<newline>---\<newline>bar: I am valid'' =
     ''foo: I am valid\<newline>---\<newline>bar: I am valid''"
  by code_simp

lemma TrimSpace_fragments:
  "TrimSpace ''foo: I am valid'' \<noteq> []" "TrimSpace ''\<newline>bar: I am valid'' \<noteq> []"
  by code_simp+

text \<open>
  C7. \<^verbatim>\<open>cleanManifest\<close> splits its input at the marker (a line break and three
  dashes), drops every fragment that \<^verbatim>\<open>yaml.Unmarshal\<close> does not read as a mapping and
  every fragment that is empty after trimming, joins the others with the marker and trims the
  result; its error is always nil. With a library that reads the first and the third fragment
  of the example as mappings and refuses the second, the example gives the two valid
  fragments.
\<close>

theorem cleanManifest_keeps_mappings:
  "cleanManifest Unmarshal manifest =
     (TrimSpace (Join (filter (\<lambda>entry. \<not> isl (Unmarshal entry) \<and> TrimSpace entry \<noteq> [])
                         (Split manifest ''\<newline>---'')) ''\<newline>---''), None) \<and>
   (\<not> isl (Unmarshal ''foo: I am valid'') \<and> isl (Unmarshal ''\<newline>I'm not valid'') \<and>
    \<not> isl (Unmarshal ''\<newline>bar: I am valid'') \<longrightarrow>
      cleanManifest Unmarshal
        ''foo: I am valid\<newline>---\<newline>I'm not valid\<newline>---\<newline>bar: I am valid'' =
        (''foo: I am valid\<newline>---\<newline>bar: I am valid'', None))"
proof -
  have general: "cleanManifest Unmarshal m =
     (TrimSpace (Join (filter (\<lambda>entry. \<not> isl (Unmarshal entry) \<and> TrimSpace entry \<noteq> [])
                         (Split m ''\<newline>---'')) ''\<newline>---''), None)" for m
    by (simp add: cleanManifest_def cleanManifest_loop_filter)
  have example: "cleanManifest Unmarshal
        ''foo: I am valid\<newline>---\<newline>I'm not valid\<newline>---\<newline>bar: I am valid'' =
        (''foo: I am valid\<newline>---\<newline>bar: I am valid'', None)"
    if "\<not> isl (Unmarshal ''foo: I am valid'')" "isl (Unmarshal ''\<newline>I'm not valid'')"
      "\<not> isl (Unmarshal ''\<newline>bar: I am valid'')"
  proof -
    have "filter (\<lambda>entry. \<not> isl (Unmarshal entry) \<and> TrimSpace entry \<noteq> [])
        [''foo: I am valid'', ''\<newline>I'm not valid'', ''\<newline>bar: I am valid''] =
        [''foo: I am valid'', ''\<newline>bar: I am valid'']"
      using that TrimSpace_fragments by simp
    then show ?thesis
      by (simp only: general Split_example Join.simps append.simps TrimSpace_example)
  qed
  show ?thesis
    using general example by blast
qed

theorem cleanManifest_keeps_mappings_witness:
  "\<not> isl (sample_unmarshal ''foo: I am valid'') \<and> isl (sample_unmarshal ''\<newline>I'm not valid'') \<and>
   \<not> isl (sample_unmarshal ''\<newline>bar: I am valid'') \<and>
   cleanManifest sample_unmarshal
     ''foo: I am valid\<newline>---\<newline>I'm not valid\<newline>---\<newline>bar: I am valid'' =
     (''foo: I am valid\<newline>---\<newline>bar: I am valid'', None)"
proof -
  have h1: "\<not> isl (sample_unmarshal ''foo: I am valid'')"
    by (simp add: sample_unmarshal_def)
  have h2: "isl (sample_unmarshal ''\<newline>I'm not valid'')"
    by (simp add: sample_unmarshal_def)
  have h3: "\<not> isl (sample_unmarshal ''\<newline>bar: I am valid'')"
    by (simp add: sample_unmarshal_def)
  have c: "cleanManifest sample_unmarshal
     ''foo: I am valid\<newline>---\<newline>I'm not valid\<newline>---\<newline>bar: I am valid'' =
     (''foo: I am valid\<newline>---\<newline>bar: I am valid'', None)"
    by (rule mp [OF conjunct2 [OF cleanManifest_keeps_mappings] conjI [OF h1 conjI [OF h2 h3]]])
  show ?thesis
    by (rule conjI [OF h1 conjI [OF h2 conjI [OF h3 c]]])
qed

section \<open>Properties of the helm arguments\<close>











end
